theory Spec2Isabelle
  imports Complex_Main "HOL-Library.Multiset"
begin

section \<open>The Python values the program handles\<close>

text \<open>
  The program is \<^verbatim>\<open>src/app.py\<close>. Its records are Python dictionaries obtained from
  \<^verbatim>\<open>json.loads\<close>; its filters are the keyword arguments of \<^verbatim>\<open>filter_bicycle_data\<close>.
  A Python string is modelled as a \<^typ>\<open>string\<close> with one \<^typ>\<open>char\<close> per code point, so
  the model covers text whose code points are below 256; the character classes below
  (\<open>\s\<close>, \<open>\w\<close>, \<open>str.lower\<close>, the blanks of \<open>float\<close>) are Python's on that range.

  The limits that the interpreter is configured with are not part of the model: memory,
  the depth of recursion (\<^verbatim>\<open>sys.setrecursionlimit\<close>), and the number of digits of an
  integer that is read from or printed as text (\<^verbatim>\<open>sys.set_int_max_str_digits\<close>, 4300
  unless changed). The model is the program where these limits are not reached; where
  they are, \<open>str\<close> and \<open>json.loads\<close> raise \<open>ValueError\<close> or \<open>RecursionError\<close>.
\<close>

subsection \<open>Floating-point numbers\<close>

text \<open>
  A Python \<open>float\<close> is an IEEE 754 binary64 number. A finite one is kept as the rational
  it denotes; the two zeros are kept apart because \<open>str\<close> prints them differently.
\<close>

datatype pyfloat = NaN | NegInf | NegZero | Fin rat | PosInf

fun fclass :: "pyfloat \<Rightarrow> int" where
  "fclass NegInf = -1"
| "fclass PosInf = 1"
| "fclass _ = 0"

fun fval :: "pyfloat \<Rightarrow> rat" where
  "fval (Fin q) = q"
| "fval _ = 0"

definition flt :: "pyfloat \<Rightarrow> pyfloat \<Rightarrow> bool" where
  \<comment> \<open>Python's \<open>a < b\<close> on floats: false as soon as one side is nan.\<close>
  "flt a b = (a \<noteq> NaN \<and> b \<noteq> NaN \<and>
     (fclass a < fclass b \<or> (fclass a = fclass b \<and> fval a < fval b)))"

definition fle :: "pyfloat \<Rightarrow> pyfloat \<Rightarrow> bool" where
  \<comment> \<open>Python's \<open>a <= b\<close> on floats.\<close>
  "fle a b = (a \<noteq> NaN \<and> b \<noteq> NaN \<and>
     (fclass a < fclass b \<or> (fclass a = fclass b \<and> fval a \<le> fval b)))"

function bit_length :: "int \<Rightarrow> int" where
  \<comment> \<open>The number of binary digits of a natural number.\<close>
  "bit_length n = (if n \<le> 0 then 0 else 1 + bit_length (n div 2))"
  by pat_completeness auto
termination
  by (relation "measure nat") auto

declare bit_length.simps [simp del]

definition pow2 :: "int \<Rightarrow> rat" where
  "pow2 k = (if 0 \<le> k then 2 ^ nat k else 1 / 2 ^ nat (- k))"

definition pow10 :: "int \<Rightarrow> rat" where
  "pow10 k = (if 0 \<le> k then 10 ^ nat k else 1 / 10 ^ nat (- k))"

definition ilog2 :: "rat \<Rightarrow> int" where
  \<comment> \<open>\<open>\<lfloor>log\<^sub>2 a\<rfloor>\<close> for a positive rational \<open>a\<close>.\<close>
  "ilog2 a =
     (let (p, q) = quotient_of a;
          k = bit_length p - bit_length q
      in if pow2 k \<le> a then k else k - 1)"

definition round_half_even :: "rat \<Rightarrow> int" where
  "round_half_even x =
     (let f = \<lfloor>x\<rfloor>; d = x - of_int f
      in if d < 1 / 2 then f
         else if 1 / 2 < d then f + 1
         else if even f then f else f + 1)"

definition round_binary64 :: "rat \<Rightarrow> rat" where
  \<comment> \<open>The nearest binary64 magnitude to \<open>a \<ge> 0\<close>, ties to even: 53 significant bits,
      least exponent -1022 (below it the spacing stays \<open>2\<^sup>-\<^sup>1\<^sup>0\<^sup>7\<^sup>4\<close>). A result of
      \<open>2\<^sup>1\<^sup>0\<^sup>2\<^sup>4\<close> or more is out of range.\<close>
  "round_binary64 a =
     (if a = 0 then 0
      else let e = max (ilog2 a) (- 1022); ulp = pow2 (e - 52)
           in of_int (round_half_even (a / ulp)) * ulp)"

definition float_of_rat :: "bool \<Rightarrow> rat \<Rightarrow> pyfloat" where
  \<comment> \<open>Correctly rounded conversion of a decimal literal with sign \<open>neg\<close> and
      magnitude \<open>a\<close>: overflow gives an infinity, underflow a signed zero.\<close>
  "float_of_rat neg a =
     (let r = round_binary64 a
      in if pow2 1024 \<le> r then (if neg then NegInf else PosInf)
         else if r = 0 then (if neg then NegZero else Fin 0)
         else Fin (if neg then - r else r))"

subsection \<open>Exceptions and values\<close>

datatype exn = ValueError | TypeError | OverflowError

datatype pyval = PNone | PBool bool | PInt int | PFloat pyfloat | PStr string

text \<open>
  A dictionary with string keys, in insertion order. \<open>k in d\<close> is
  \<open>map_of d k \<noteq> None\<close>, \<open>d[k]\<close> and \<open>d.get(k, v)\<close> read \<open>map_of d k\<close>.
\<close>

type_synonym pydict = "(string \<times> pyval) list"

subsection \<open>\<open>float(x)\<close>\<close>

definition is_digit :: "char \<Rightarrow> bool" where
  "is_digit c = (let n = (of_char c :: nat) in 48 \<le> n \<and> n \<le> 57)"

definition digit_val :: "char \<Rightarrow> int" where
  "digit_val c = of_char c - 48"

definition int_of_digits :: "string \<Rightarrow> int" where
  "int_of_digits ds = foldl (\<lambda>n c. 10 * n + digit_val c) 0 ds"

definition is_float_space :: "char \<Rightarrow> bool" where
  \<comment> \<open>The blanks \<open>float\<close> strips: tab to carriage return, space, U+0085, U+00A0.\<close>
  "is_float_space c =
     (let n = (of_char c :: nat) in (9 \<le> n \<and> n \<le> 13) \<or> n = 32 \<or> n = 133 \<or> n = 160)"

definition float_strip :: "string \<Rightarrow> string" where
  "float_strip s = rev (dropWhile is_float_space (rev (dropWhile is_float_space s)))"

fun underscores_ok :: "char \<Rightarrow> string \<Rightarrow> bool" where
  \<comment> \<open>An underscore is allowed only between two digits; the first argument is the
      character before.\<close>
  "underscores_ok prev [] = (prev \<noteq> CHR ''_'')"
| "underscores_ok prev (c # cs) =
     (if c = CHR ''_'' then is_digit prev \<and> underscores_ok c cs
      else (prev \<noteq> CHR ''_'' \<or> is_digit c) \<and> underscores_ok c cs)"

definition lower_char :: "char \<Rightarrow> char" where
  "lower_char c =
     (let n = (of_char c :: nat)
      in if (65 \<le> n \<and> n \<le> 90) \<or> (192 \<le> n \<and> n \<le> 222 \<and> n \<noteq> 215)
         then char_of (n + 32) else c)"

definition py_lower :: "string \<Rightarrow> string" where
  "py_lower s = map lower_char s"

definition split_sign :: "string \<Rightarrow> bool \<times> string" where
  "split_sign s =
     (case s of
        c # cs \<Rightarrow> if c = CHR ''-'' then (True, cs) else if c = CHR ''+'' then (False, cs)
                  else (False, s)
      | [] \<Rightarrow> (False, s))"

definition parse_exponent :: "string \<Rightarrow> int option" where
  \<comment> \<open>What follows the mantissa: nothing, or \<open>e\<close>/\<open>E\<close>, an optional sign and digits.\<close>
  "parse_exponent s =
     (case s of
        [] \<Rightarrow> Some 0
      | c # cs \<Rightarrow>
          if c = CHR ''e'' \<or> c = CHR ''E'' then
            (let (neg, ds) = split_sign cs
             in if ds \<noteq> [] \<and> list_all is_digit ds
                then Some (if neg then - int_of_digits ds else int_of_digits ds)
                else None)
          else None)"

definition parse_float :: "string \<Rightarrow> pyfloat option" where
  \<comment> \<open>The grammar of \<open>float\<close> on a stripped string without underscores.\<close>
  "parse_float s =
     (let (neg, body) = split_sign s; low = py_lower body
      in if low = ''inf'' \<or> low = ''infinity'' then Some (if neg then NegInf else PosInf)
         else if low = ''nan'' then Some NaN
         else
           let ip = takeWhile is_digit body; r1 = dropWhile is_digit body;
               fp = (case r1 of c # cs \<Rightarrow> if c = CHR ''.'' then takeWhile is_digit cs else []
                     | [] \<Rightarrow> []);
               r2 = (case r1 of c # cs \<Rightarrow> if c = CHR ''.'' then dropWhile is_digit cs else r1
                     | [] \<Rightarrow> [])
           in if ip = [] \<and> fp = [] then None
              else case parse_exponent r2 of
                     None \<Rightarrow> None
                   | Some e \<Rightarrow>
                       Some (float_of_rat neg
                         (of_int (int_of_digits (ip @ fp)) * pow10 (e - int (length fp)))))"

definition float_of_string :: "string \<Rightarrow> exn + pyfloat" where
  "float_of_string s =
     (let t = float_strip s
      in if \<not> underscores_ok (CHR 0x00) t then Inl ValueError
         else case parse_float (filter (\<lambda>c. c \<noteq> CHR ''_'') t) of
                None \<Rightarrow> Inl ValueError
              | Some f \<Rightarrow> Inr f)"

definition float_of_int :: "int \<Rightarrow> exn + pyfloat" where
  \<comment> \<open>Rounds to nearest, ties to even; an integer that rounds out of range raises.\<close>
  "float_of_int n =
     (let r = round_binary64 (of_int \<bar>n\<bar>)
      in if pow2 1024 \<le> r then Inl OverflowError
         else Inr (Fin (if n < 0 then - r else r)))"

fun py_float :: "pyval \<Rightarrow> exn + pyfloat" where
  "py_float PNone = Inl TypeError"
| "py_float (PBool b) = Inr (Fin (if b then 1 else 0))"
| "py_float (PInt n) = float_of_int n"
| "py_float (PFloat f) = Inr f"
| "py_float (PStr s) = float_of_string s"

subsection \<open>\<open>str(x)\<close> and \<open>str.replace\<close>\<close>

function digits_of_int :: "int \<Rightarrow> string" where
  \<comment> \<open>The decimal digits of a natural number.\<close>
  "digits_of_int n =
     (if n < 10 then [char_of (48 + n)]
      else digits_of_int (n div 10) @ [char_of (48 + n mod 10)])"
  by pat_completeness auto
termination
  by (relation "measure nat") auto

declare digits_of_int.simps [simp del]

definition str_of_int :: "int \<Rightarrow> string" where
  "str_of_int i = (if i < 0 then CHR ''-'' # digits_of_int (- i) else digits_of_int i)"

text \<open>
  \<open>str\<close> of a float is \<open>repr\<close>: the shortest decimal that reads back as the same
  float (of two such decimals the nearer one, the even one on a tie), printed with a
  point when the decimal exponent lies between -4 and 16 and with an exponent otherwise.
\<close>

definition decimal_point :: "rat \<Rightarrow> int" where
  \<comment> \<open>The \<open>k\<close> with \<open>10\<^sup>k\<^sup>-\<^sup>1 \<le> x < 10\<^sup>k\<close>, for \<open>x\<close> in the range of binary64.\<close>
  "decimal_point x = (case find (\<lambda>k. x < pow10 k) [-323..309] of Some k \<Rightarrow> k | None \<Rightarrow> 310)"

definition shortest_at :: "rat \<Rightarrow> int \<Rightarrow> int \<Rightarrow> int option" where
  \<comment> \<open>A decimal of \<open>d\<close> digits next to \<open>x\<close> that reads back as \<open>x\<close>, if there is one.\<close>
  "shortest_at x k d =
     (let s = pow10 (k - d); lo = \<lfloor>x / s\<rfloor>; hi = lo + 1;
          oklo = (float_of_rat False (of_int lo * s) = Fin x);
          okhi = (float_of_rat False (of_int hi * s) = Fin x);
          below = x - of_int lo * s; above = of_int hi * s - x
      in if oklo \<and> okhi
         then Some (if below < above \<or> (below = above \<and> even lo) then lo else hi)
         else if oklo then Some lo
         else if okhi then Some hi
         else None)"

fun first_shortest :: "rat \<Rightarrow> int \<Rightarrow> int list \<Rightarrow> (int \<times> int) option" where
  "first_shortest x k [] = None"
| "first_shortest x k (d # ds) =
     (case shortest_at x k d of Some c \<Rightarrow> Some (d, c) | None \<Rightarrow> first_shortest x k ds)"

definition shortest_digits :: "rat \<Rightarrow> string \<times> int" where
  \<comment> \<open>The digits \<open>ds\<close> and the position \<open>k\<close> of the point: the value is \<open>0.ds \<times> 10\<^sup>k\<close>.
      A binary64 number is found with 17 digits at most.\<close>
  "shortest_digits x =
     (let k = decimal_point x
      in case first_shortest x k [1..17] of
           Some (d, c) \<Rightarrow>
             (let ds = digits_of_int c
              in (rev (dropWhile (\<lambda>c. c = CHR ''0'') (rev ds)), k + (int (length ds) - d)))
         | None \<Rightarrow> ([], k))"

definition format_repr :: "string \<Rightarrow> int \<Rightarrow> string" where
  "format_repr ds k =
     (if - 4 < k \<and> k \<le> 16 then
        (if k \<le> 0 then ''0.'' @ replicate (nat (- k)) (CHR ''0'') @ ds
         else if int (length ds) \<le> k
              then ds @ replicate (nat k - length ds) (CHR ''0'') @ ''.0''
              else take (nat k) ds @ ''.'' @ drop (nat k) ds)
      else
        (let e = k - 1; es = digits_of_int \<bar>e\<bar>
         in take 1 ds @ (if 1 < length ds then ''.'' @ drop 1 ds else [])
            @ ''e'' @ (if e < 0 then ''-'' else ''+'')
            @ (if length es < 2 then ''0'' @ es else es)))"

definition float_repr :: "pyfloat \<Rightarrow> string" where
  "float_repr f =
     (case f of
        NaN \<Rightarrow> ''nan''
      | PosInf \<Rightarrow> ''inf''
      | NegInf \<Rightarrow> ''-inf''
      | NegZero \<Rightarrow> ''-0.0''
      | Fin q \<Rightarrow>
          if q = 0 then ''0.0''
          else (let (ds, k) = shortest_digits \<bar>q\<bar>
                in (if q < 0 then ''-'' else []) @ format_repr ds k))"

fun py_str :: "pyval \<Rightarrow> string" where
  "py_str PNone = ''None''"
| "py_str (PBool b) = (if b then ''True'' else ''False'')"
| "py_str (PInt n) = str_of_int n"
| "py_str (PFloat f) = float_repr f"
| "py_str (PStr s) = s"

definition py_replace_char :: "char \<Rightarrow> string \<Rightarrow> string \<Rightarrow> string" where
  \<comment> \<open>\<open>s.replace(old, new)\<close> for a pattern \<open>old\<close> of one character.\<close>
  "py_replace_char old new s = concat (map (\<lambda>c. if c = old then new else [c]) s)"

section \<open>The extraction\<close>

subsection \<open>The three regular expressions\<close>

definition is_space :: "char \<Rightarrow> bool" where
  \<comment> \<open>\<open>\s\<close> of a \<open>str\<close> pattern, on code points below 256.\<close>
  "is_space c =
     (let n = (of_char c :: nat)
      in (9 \<le> n \<and> n \<le> 13) \<or> (28 \<le> n \<and> n \<le> 32) \<or> n = 133 \<or> n = 160)"

definition is_word :: "char \<Rightarrow> bool" where
  \<comment> \<open>\<open>\w\<close> of a \<open>str\<close> pattern, on code points below 256: the alphanumeric
      characters and the underscore.\<close>
  "is_word c =
     (let n = (of_char c :: nat)
      in (48 \<le> n \<and> n \<le> 57) \<or> (65 \<le> n \<and> n \<le> 90) \<or> n = 95 \<or> (97 \<le> n \<and> n \<le> 122)
         \<or> n = 170 \<or> n = 178 \<or> n = 179 \<or> n = 181 \<or> n = 185 \<or> n = 186
         \<or> (188 \<le> n \<and> n \<le> 190) \<or> (192 \<le> n \<and> n \<le> 214) \<or> (216 \<le> n \<and> n \<le> 246)
         \<or> 248 \<le> n)"

fun strip_prefix :: "string \<Rightarrow> string \<Rightarrow> string option" where
  \<comment> \<open>What follows the literal text \<open>p\<close> at the start of \<open>s\<close>.\<close>
  "strip_prefix [] s = Some s"
| "strip_prefix (p # ps) [] = None"
| "strip_prefix (p # ps) (c # cs) = (if p = c then strip_prefix ps cs else None)"

fun until_close :: "string \<Rightarrow> string option" where
  \<comment> \<open>\<open>.*?\<close> before \<open>\];\<close>: the shortest text that is followed by \<open>];\<close>.\<close>
  "until_close [] = None"
| "until_close (c # cs) =
     (if c = CHR '']'' \<and> (case cs of d # _ \<Rightarrow> d = CHR '';'' | [] \<Rightarrow> False) then Some []
      else map_option (\<lambda>body. c # body) (until_close cs))"

definition match_marker :: "string \<Rightarrow> string option" where
  \<comment> \<open>\<open>const\s+bicycleDataRaw\s*=\s*(\[.*?\]);\<close> at the start of \<open>s\<close>: group 1.
      A run of \<open>\s\<close> is followed by a character that is not a blank, so the greedy
      run is the only one that can match.\<close>
  "match_marker s =
     (case strip_prefix ''const'' s of
        None \<Rightarrow> None
      | Some r1 \<Rightarrow>
          if takeWhile is_space r1 = [] then None
          else (case strip_prefix ''bicycleDataRaw'' (dropWhile is_space r1) of
                  None \<Rightarrow> None
                | Some r2 \<Rightarrow>
                    (case strip_prefix ''='' (dropWhile is_space r2) of
                       None \<Rightarrow> None
                     | Some r3 \<Rightarrow>
                         (case strip_prefix ''['' (dropWhile is_space r3) of
                            None \<Rightarrow> None
                          | Some r4 \<Rightarrow>
                              map_option (\<lambda>body. ''['' @ body @ '']'') (until_close r4)))))"

fun re_search :: "string \<Rightarrow> string option" where
  \<comment> \<open>\<open>re.search\<close>: the match at the leftmost position that has one.\<close>
  "re_search [] = match_marker []"
| "re_search (c # cs) =
     (case match_marker (c # cs) of Some g \<Rightarrow> Some g | None \<Rightarrow> re_search cs)"

definition before_colon :: "string \<Rightarrow> bool" where
  \<comment> \<open>The lookahead \<open>(?=\s*:)\<close>.\<close>
  "before_colon s = (case dropWhile is_space s of c # _ \<Rightarrow> c = CHR '':'' | [] \<Rightarrow> False)"

function sub_keys :: "string \<Rightarrow> string" where
  \<comment> \<open>\<open>re.sub(r"(\w+)(?=\s*:)", r'"\1"', s)\<close>. At a word character the greedy \<open>\w+\<close>
      takes the whole run; a shorter run is followed by a word character, where the
      lookahead fails. Without a match the scan moves on by one character.\<close>
  "sub_keys [] = []"
| "sub_keys (c # cs) =
     (if is_word c \<and> before_colon (dropWhile is_word cs)
      then [CHR 0x22] @ c # takeWhile is_word cs @ [CHR 0x22] @ sub_keys (dropWhile is_word cs)
      else c # sub_keys cs)"
  by pat_completeness auto
termination
  by (relation "measure length") (auto simp: length_dropWhile_le less_Suc_eq_le)

function sub_quotes :: "string \<Rightarrow> string" where
  \<comment> \<open>\<open>re.sub(r"'([^']*)'", r'"\1"', s)\<close>: a quote and the next quote become double
      quotes, the text between them is kept.\<close>
  "sub_quotes [] = []"
| "sub_quotes (c # cs) =
     (if c = CHR 0x27 \<and> CHR 0x27 \<in> set cs
      then [CHR 0x22] @ takeWhile (\<lambda>d. d \<noteq> CHR 0x27) cs @ [CHR 0x22]
           @ sub_quotes (tl (dropWhile (\<lambda>d. d \<noteq> CHR 0x27) cs))
      else c # sub_quotes cs)"
  by pat_completeness auto
termination
proof (relation "measure length")
  fix c :: char and cs :: string
  have "length (tl (dropWhile (\<lambda>d. d \<noteq> CHR 0x27) cs)) \<le> length cs"
    using length_dropWhile_le [of "\<lambda>d. d \<noteq> CHR 0x27" cs] by simp
  then show "(tl (dropWhile (\<lambda>d. d \<noteq> CHR 0x27) cs), c # cs) \<in> measure length" by simp
qed auto


subsection \<open>\<open>json.loads\<close>\<close>

text \<open>
  An escape \<open>\uXXXX\<close> yields a code point of any size, so a decoded string is a list of
  code points. An object is the dictionary built from its members: in the order of the
  first occurrence of each key, with the value of the last. Arrays nest to any depth and
  an integer literal has any number of digits, as said at the beginning.
\<close>

datatype json =
    JNull
  | JBool bool
  | JInt int
  | JFloat pyfloat
  | JString "nat list"
  | JArray "json list"
  | JObject "(nat list \<times> json) list"

datatype json_error = JSONDecodeError

definition is_json_ws :: "char \<Rightarrow> bool" where
  "is_json_ws c = (c = CHR '' '' \<or> c = CHR 0x09 \<or> c = CHR 0x0A \<or> c = CHR 0x0D)"

definition skip_ws :: "string \<Rightarrow> string" where
  "skip_ws s = dropWhile is_json_ws s"

definition hex_val :: "char \<Rightarrow> nat option" where
  "hex_val c =
     (let n = (of_char c :: nat)
      in if 48 \<le> n \<and> n \<le> 57 then Some (n - 48)
         else if 65 \<le> n \<and> n \<le> 70 then Some (n - 55)
         else if 97 \<le> n \<and> n \<le> 102 then Some (n - 87)
         else None)"

fun decode_u :: "string \<Rightarrow> nat option" where
  \<comment> \<open>The four hexadecimal digits after \<open>\u\<close>.\<close>
  "decode_u (a # b # c # d # _) =
     (case (hex_val a, hex_val b, hex_val c, hex_val d) of
        (Some x, Some y, Some z, Some w) \<Rightarrow> Some (((x * 16 + y) * 16 + z) * 16 + w)
      | _ \<Rightarrow> None)"
| "decode_u _ = None"

definition backslash :: "char \<Rightarrow> nat option" where
  "backslash e =
     (if e = CHR 0x22 then Some 0x22
      else if e = CHR 0x5C then Some 0x5C
      else if e = CHR ''/'' then Some 0x2F
      else if e = CHR ''b'' then Some 0x08
      else if e = CHR ''f'' then Some 0x0C
      else if e = CHR ''n'' then Some 0x0A
      else if e = CHR ''r'' then Some 0x0D
      else if e = CHR ''t'' then Some 0x09
      else None)"

definition low_surrogate_after :: "string \<Rightarrow> json_error + nat option" where
  \<comment> \<open>After a high surrogate: the low surrogate that a directly following \<open>\uXXXX\<close>
      names, if it names one. An escape that starts there and cannot be decoded is an
      error.\<close>
  "low_surrogate_after s =
     (case s of
        a # b # r \<Rightarrow>
          if a = CHR 0x5C \<and> b = CHR ''u'' then
            (case decode_u r of
               None \<Rightarrow> Inl JSONDecodeError
             | Some u2 \<Rightarrow> Inr (if 0xDC00 \<le> u2 \<and> u2 \<le> 0xDFFF then Some u2 else None))
          else Inr None
      | _ \<Rightarrow> Inr None)"

function scanstring :: "string \<Rightarrow> json_error + (nat list \<times> string)" where
  \<comment> \<open>\<open>scanstring\<close> in strict mode, from the character after the opening quote:
      the decoded text and what follows the closing quote.\<close>
  "scanstring [] = Inl JSONDecodeError"
| "scanstring (c # cs) =
     (if c = CHR 0x22 then Inr ([], cs)
      else if c = CHR 0x5C then
        (case cs of
           [] \<Rightarrow> Inl JSONDecodeError
         | e # es \<Rightarrow>
             if e = CHR ''u'' then
               (case decode_u es of
                  None \<Rightarrow> Inl JSONDecodeError
                | Some uni \<Rightarrow>
                    (case (if 0xD800 \<le> uni \<and> uni \<le> 0xDBFF then low_surrogate_after (drop 4 es)
                           else Inr None) of
                       Inl err \<Rightarrow> Inl err
                     | Inr (Some u2) \<Rightarrow>
                         (case scanstring (drop 10 es) of
                            Inl err \<Rightarrow> Inl err
                          | Inr (t, r) \<Rightarrow>
                              Inr ((0x10000 + (uni - 0xD800) * 1024 + (u2 - 0xDC00)) # t, r))
                     | Inr None \<Rightarrow>
                         (case scanstring (drop 4 es) of
                            Inl err \<Rightarrow> Inl err
                          | Inr (t, r) \<Rightarrow> Inr (uni # t, r))))
             else
               (case backslash e of
                  None \<Rightarrow> Inl JSONDecodeError
                | Some ch \<Rightarrow>
                    (case scanstring es of
                       Inl err \<Rightarrow> Inl err
                     | Inr (t, r) \<Rightarrow> Inr (ch # t, r))))
      else if (of_char c :: nat) < 0x20 then Inl JSONDecodeError
      else (case scanstring cs of
              Inl err \<Rightarrow> Inl err
            | Inr (t, r) \<Rightarrow> Inr (of_char c # t, r)))"
  by pat_completeness auto
termination
  by (relation "measure length") auto


lemma scanstring_shorter: "scanstring s = Inr (t, r) \<Longrightarrow> length r < length s"
proof (induction s arbitrary: t r rule: length_induct)
  case (1 s)
  show ?case
  proof (cases s)
    case Nil
    with "1.prems" show ?thesis by simp
  next
    case (Cons c cs)
    have "r = cs \<or> (\<exists>s' t'. scanstring s' = Inr (t', r) \<and> length s' \<le> length cs)"
      using "1.prems" unfolding Cons scanstring.simps
      by (auto split: if_splits list.splits option.splits sum.splits prod.splits
          intro: exI [of _ cs] exI [of _ "drop 4 (tl cs)"] exI [of _ "drop 10 (tl cs)"]
            exI [of _ "tl cs"])
    then show ?thesis
    proof
      assume "r = cs"
      with Cons show ?thesis by simp
    next
      assume "\<exists>s' t'. scanstring s' = Inr (t', r) \<and> length s' \<le> length cs"
      then obtain s' t' where s': "scanstring s' = Inr (t', r)" "length s' \<le> length cs" by blast
      with Cons have "length s' < length s" by simp
      with "1.IH" s'(1) have "length r < length s'" by blast
      with s'(2) Cons show ?thesis by simp
    qed
  qed
qed


definition scan_number :: "string \<Rightarrow> (json \<times> string) option" where
  \<comment> \<open>\<open>NUMBER_RE\<close>, \<open>(-?(?:0|[1-9]\d*))(\.\d+)?([eE][-+]?\d+)?\<close>, at the start of \<open>s\<close>:
      \<open>int\<close> of the text when there is neither fraction nor exponent, \<open>float\<close> of
      it otherwise.\<close>
  "scan_number s =
     (let (neg, r0) = (case s of c # cs \<Rightarrow> if c = CHR ''-'' then (True, cs) else (False, s)
                       | [] \<Rightarrow> (False, s));
          ip = (case r0 of c # cs \<Rightarrow> if c = CHR ''0'' then [c] else takeWhile is_digit r0
                | [] \<Rightarrow> []);
          r1 = drop (length ip) r0;
          fp = (case r1 of c # cs \<Rightarrow> if c = CHR ''.'' then takeWhile is_digit cs else []
                | [] \<Rightarrow> []);
          r2 = (if fp = [] then r1 else drop (Suc (length fp)) r1);
          ex = (case r2 of
                  c # cs \<Rightarrow>
                    if c = CHR ''e'' \<or> c = CHR ''E'' then
                      (let sg = (case cs of d # _ \<Rightarrow> if d = CHR ''+'' \<or> d = CHR ''-'' then [d] else []
                                 | [] \<Rightarrow> []);
                           ds = takeWhile is_digit (drop (length sg) cs)
                       in if ds = [] then [] else c # sg @ ds)
                    else []
                | [] \<Rightarrow> []);
          r3 = drop (length ex) r2
      in if ip = [] then None
         else if fp = [] \<and> ex = [] then
           Some (JInt (if neg then - int_of_digits ip else int_of_digits ip), r3)
         else
           (case float_of_string ((if neg then ''-'' else []) @ ip @ (if fp = [] then [] else CHR ''.'' # fp) @ ex) of
              Inl _ \<Rightarrow> None
            | Inr f \<Rightarrow> Some (JFloat f, r3)))"

fun dict_set :: "(nat list \<times> json) list \<Rightarrow> nat list \<Rightarrow> json \<Rightarrow> (nat list \<times> json) list" where
  \<comment> \<open>\<open>d[k] = v\<close>: a key that is there keeps its place.\<close>
  "dict_set [] k v = [(k, v)]"
| "dict_set ((k', v') # d) k v = (if k' = k then (k, v) # d else (k', v') # dict_set d k v)"

definition dict_of_pairs :: "(nat list \<times> json) list \<Rightarrow> (nat list \<times> json) list" where
  \<comment> \<open>\<open>dict(pairs)\<close>\<close>
  "dict_of_pairs ps = foldl (\<lambda>d (k, v). dict_set d k v) [] ps"

definition scan_constant :: "string \<Rightarrow> (json \<times> string) option" where
  \<comment> \<open>The literals of \<open>scan_once\<close> and the numbers.\<close>
  "scan_constant s =
     (case strip_prefix ''null'' s of Some r \<Rightarrow> Some (JNull, r) | None \<Rightarrow>
      case strip_prefix ''true'' s of Some r \<Rightarrow> Some (JBool True, r) | None \<Rightarrow>
      case strip_prefix ''false'' s of Some r \<Rightarrow> Some (JBool False, r) | None \<Rightarrow>
      case scan_number s of Some vr \<Rightarrow> Some vr | None \<Rightarrow>
      case strip_prefix ''NaN'' s of Some r \<Rightarrow> Some (JFloat NaN, r) | None \<Rightarrow>
      case strip_prefix ''Infinity'' s of Some r \<Rightarrow> Some (JFloat PosInf, r) | None \<Rightarrow>
      case strip_prefix ''-Infinity'' s of Some r \<Rightarrow> Some (JFloat NegInf, r) | None \<Rightarrow> None)"

lemma length_skip_ws: "length (skip_ws s) \<le> length s"
  by (simp add: skip_ws_def length_dropWhile_le)

lemma skip_ws_Cons_length: "skip_ws s = d # r \<Longrightarrow> length r < length s"
  using length_skip_ws [of s] by simp

function parse_value :: "string \<Rightarrow> json_error + (json \<times> string)"
  and parse_elements :: "string \<Rightarrow> json_error + (json list \<times> string)"
  and parse_members :: "string \<Rightarrow> json_error + ((nat list \<times> json) list \<times> string)"
  where
  \<comment> \<open>\<open>scan_once\<close>: the value at the start of \<open>s\<close> and what follows it.\<close>
  "parse_value s =
     (case s of
        [] \<Rightarrow> Inl JSONDecodeError
      | c # cs \<Rightarrow>
          if c = CHR 0x22 then
            (case scanstring cs of Inl e \<Rightarrow> Inl e | Inr (t, r) \<Rightarrow> Inr (JString t, r))
          else if c = CHR ''{'' then
            (case skip_ws cs of
               [] \<Rightarrow> Inl JSONDecodeError
             | d # r \<Rightarrow>
                 if d = CHR ''}'' then Inr (JObject [], r)
                 else if d = CHR 0x22 then
                   (case parse_members r of
                      Inl e \<Rightarrow> Inl e
                    | Inr (ms, r') \<Rightarrow> Inr (JObject (dict_of_pairs ms), r'))
                 else Inl JSONDecodeError)
          else if c = CHR ''['' then
            (case skip_ws cs of
               [] \<Rightarrow> Inl JSONDecodeError
             | d # r \<Rightarrow>
                 if d = CHR '']'' then Inr (JArray [], r)
                 else (case parse_elements (d # r) of
                         Inl e \<Rightarrow> Inl e
                       | Inr (vs, r') \<Rightarrow> Inr (JArray vs, r')))
          else (case scan_constant s of None \<Rightarrow> Inl JSONDecodeError | Some vr \<Rightarrow> Inr vr))"
  \<comment> \<open>The loop of \<open>JSONArray\<close>, from the start of a value. The comparison of the
      lengths serves the termination proof; it never fails (\<open>parse_value_shorter\<close>).\<close>
| "parse_elements s =
     (case parse_value s of
        Inl e \<Rightarrow> Inl e
      | Inr (v, r) \<Rightarrow>
          if length r < length s then
            (case skip_ws r of
               [] \<Rightarrow> Inl JSONDecodeError
             | d # r' \<Rightarrow>
                 if d = CHR '']'' then Inr ([v], r')
                 else if d = CHR '','' then
                   (case parse_elements (skip_ws r') of
                      Inl e \<Rightarrow> Inl e
                    | Inr (vs, r'') \<Rightarrow> Inr (v # vs, r''))
                 else Inl JSONDecodeError)
          else Inl JSONDecodeError)"
  \<comment> \<open>The loop of \<open>JSONObject\<close>, from the character after the quote that opens a key.\<close>
| "parse_members s =
     (case scanstring s of
        Inl e \<Rightarrow> Inl e
      | Inr (key, r) \<Rightarrow>
          (case skip_ws r of
             [] \<Rightarrow> Inl JSONDecodeError
           | d # r1 \<Rightarrow>
               if d \<noteq> CHR '':'' then Inl JSONDecodeError
               else
                 (case parse_value (skip_ws r1) of
                    Inl e \<Rightarrow> Inl e
                  | Inr (v, r2) \<Rightarrow>
                      if length r2 < length (skip_ws r1) then
                        (case skip_ws r2 of
                           [] \<Rightarrow> Inl JSONDecodeError
                         | d' # r3 \<Rightarrow>
                             if d' = CHR ''}'' then Inr ([(key, v)], r3)
                             else if d' = CHR '','' then
                               (case skip_ws r3 of
                                  [] \<Rightarrow> Inl JSONDecodeError
                                | q # r4 \<Rightarrow>
                                    if q = CHR 0x22 then
                                      (case parse_members r4 of
                                         Inl e \<Rightarrow> Inl e
                                       | Inr (ms, r5) \<Rightarrow> Inr ((key, v) # ms, r5))
                                    else Inl JSONDecodeError)
                             else Inl JSONDecodeError)
                      else Inl JSONDecodeError)))"
  by pat_completeness auto

termination
proof (relation "measure (\<lambda>x. case x of Inl s \<Rightarrow> 2 * length s
                                     | Inr (Inl s) \<Rightarrow> 2 * length s + 1
                                     | Inr (Inr s) \<Rightarrow> 2 * length s + 1)", goal_cases)
  case 1
  show ?case by simp
next
  case (2 s c cs d r)
  then show ?case by (auto dest: skip_ws_Cons_length)
next
  case (3 s c cs d r)
  then show ?case by (auto dest: skip_ws_Cons_length)
next
  case (4 s)
  show ?case by simp
next
  case (5 s x v r d r')
  then show ?case
    using length_skip_ws [of r'] skip_ws_Cons_length [of r d r'] by auto
next
  case (6 s x key r d r1)
  then show ?case
    using scanstring_shorter [of s key r] length_skip_ws [of r1] skip_ws_Cons_length [of r d r1]
    by auto
next
  case (7 s x key r d r1 y v r2 d' r3 q r4)
  then show ?case
    using scanstring_shorter [of s key r] length_skip_ws [of r1] skip_ws_Cons_length [of r d r1]
      skip_ws_Cons_length [of r2 d' r3] skip_ws_Cons_length [of r3 q r4]
    by auto
qed

declare parse_value.simps [simp del] parse_elements.simps [simp del]
  parse_members.simps [simp del]

definition json_loads :: "string \<Rightarrow> json_error + json" where
  \<comment> \<open>\<open>json.loads\<close>: one value between blanks, and nothing else.\<close>
  "json_loads s =
     (case parse_value (skip_ws s) of
        Inl e \<Rightarrow> Inl e
      | Inr (v, r) \<Rightarrow> if skip_ws r = [] then Inr v else Inl JSONDecodeError)"

subsection \<open>\<open>fetch_bicycle_data\<close>\<close>

text \<open>
  The request is outside the program: \<open>response\<close> is the text that \<open>requests.get\<close>
  delivers, or \<open>None\<close> when the request raises \<open>RequestException\<close>. The value of
  \<open>BicycleDataError\<close> tells which \<open>raise\<close> it comes from. The two messages for the
  logger are left out; \<open>len(data)\<close> in the second one cannot raise, because a text
  that starts with a bracket is decoded to a list (\<open>json_loads_bracket\<close>).
\<close>

datatype bicycle_data_error =
    FailedToFetch
  | CouldNotFind
  | FailedToParse json_error
  | FailedToFilter exn

definition repair :: "string \<Rightarrow> string" where
  \<comment> \<open>The two substitutions that turn the array literal into JSON text.\<close>
  "repair array_text = sub_quotes (sub_keys array_text)"

definition fetch_bicycle_data :: "string option \<Rightarrow> bicycle_data_error + json" where
  "fetch_bicycle_data response =
     (case response of
        None \<Rightarrow> Inl FailedToFetch
      | Some js_code \<Rightarrow>
          (case re_search js_code of
             None \<Rightarrow> Inl CouldNotFind
           | Some array_text \<Rightarrow>
               (case json_loads (repair array_text) of
                  Inl e \<Rightarrow> Inl (FailedToParse e)
                | Inr data \<Rightarrow> Inr data)))"

subsection \<open>Notions used to state the properties of the extraction\<close>














section \<open>The filter\<close>

text \<open>
  What \<^verbatim>\<open>logger\<close> receives is returned beside the result, oldest entry first. An
  entry keeps the values that the message is formatted from.
\<close>

datatype log =
    WarnNoData
  | WarnConvert string pyval pyval
  | InfoFiltered nat nat

definition MAX_THRESHOLD_FIELDS :: "string set" where
  "MAX_THRESHOLD_FIELDS = {''cost'', ''score''}"

definition threshold_body :: "pyval \<Rightarrow> pyval \<Rightarrow> string \<Rightarrow> exn + bool" where
  \<comment> \<open>The \<open>try\<close> block of \<open>_check_threshold_filter\<close>.\<close>
  "threshold_body item_value filter_value field =
     (case (if field = ''cost''
            then py_float (PStr (py_replace_char (CHR ''$'') [] (py_str item_value)))
            else py_float item_value) of
        Inl e \<Rightarrow> Inl e
      | Inr item_val \<Rightarrow>
          (case py_float filter_value of
             Inl e \<Rightarrow> Inl e
           | Inr max_val \<Rightarrow> Inr (fle item_val max_val)))"

definition check_threshold_filter ::
  "pyval \<Rightarrow> pyval \<Rightarrow> string \<Rightarrow> log list \<times> (exn + bool)" where
  \<comment> \<open>\<open>except (ValueError, TypeError)\<close> logs and answers \<open>False\<close>; any other
      exception leaves the function.\<close>
  "check_threshold_filter item_value filter_value field =
     (case threshold_body item_value filter_value field of
        Inr b \<Rightarrow> ([], Inr b)
      | Inl e \<Rightarrow>
          if e = ValueError \<or> e = TypeError
          then ([WarnConvert field item_value filter_value], Inr False)
          else ([], Inl e))"

fun item_matches_filters ::
  "pydict \<Rightarrow> (string \<times> pyval) list \<Rightarrow> log list \<times> (exn + bool)" where
  "item_matches_filters item [] = ([], Inr True)"
| "item_matches_filters item ((field, value) # rest) =
     (case map_of item field of
        None \<Rightarrow> ([], Inr False)
      | Some v \<Rightarrow>
          if field \<in> MAX_THRESHOLD_FIELDS then
            (case check_threshold_filter v value field of
               (l, Inl e) \<Rightarrow> (l, Inl e)
             | (l, Inr ok) \<Rightarrow>
                 if \<not> ok then (l, Inr False)
                 else (case item_matches_filters item rest of (l', r) \<Rightarrow> (l @ l', r)))
          else if py_lower (py_str v) \<noteq> py_lower (py_str value)
               then ([], Inr False)
               else item_matches_filters item rest)"

fun filter_loop ::
  "pydict list \<Rightarrow> (string \<times> pyval) list \<Rightarrow> log list \<times> (exn + pydict list)" where
  \<comment> \<open>The \<open>for item in data\<close> loop: the items that match, in the order of \<open>data\<close>.\<close>
  "filter_loop [] filters = ([], Inr [])"
| "filter_loop (item # data) filters =
     (case item_matches_filters item filters of
        (l, Inl e) \<Rightarrow> (l, Inl e)
      | (l, Inr ok) \<Rightarrow>
          (case filter_loop data filters of
             (l', Inl e) \<Rightarrow> (l @ l', Inl e)
           | (l', Inr out) \<Rightarrow> (l @ l', Inr (if ok then item # out else out))))"

definition score_key :: "pydict \<Rightarrow> exn + pyfloat" where
  \<comment> \<open>\<open>float(x.get("score", float("inf")))\<close>\<close>
  "score_key x = py_float (case map_of x ''score'' of None \<Rightarrow> PFloat PosInf | Some v \<Rightarrow> v)"

fun keyed :: "('a \<Rightarrow> exn + pyfloat) \<Rightarrow> 'a list \<Rightarrow> exn + (pyfloat \<times> 'a) list" where
  \<comment> \<open>\<open>list.sort\<close> computes the key of every element first, in order; the first
      exception ends the sort.\<close>
  "keyed key [] = Inr []"
| "keyed key (x # xs) =
     (case key x of
        Inl e \<Rightarrow> Inl e
      | Inr k \<Rightarrow> (case keyed key xs of Inl e \<Rightarrow> Inl e | Inr ks \<Rightarrow> Inr ((k, x) # ks)))"

fun insert_keyed :: "pyfloat \<times> 'a \<Rightarrow> (pyfloat \<times> 'a) list \<Rightarrow> (pyfloat \<times> 'a) list" where
  \<comment> \<open>Puts an element behind every element it is not less than.\<close>
  "insert_keyed x [] = [x]"
| "insert_keyed x (y # ys) =
     (if flt (fst x) (fst y) then x # y # ys else y # insert_keyed x ys)"

definition sort_keyed :: "(pyfloat \<times> 'a) list \<Rightarrow> (pyfloat \<times> 'a) list" where
  \<comment> \<open>The elements are inserted from left to right, each compared by \<open><\<close> on the
      keys only. On keys without nan this is the one stable ascending order, which
      is what \<open>list.sort\<close> returns; with a nan among the keys \<open>list.sort\<close> gives no
      guarantee, and no property below speaks about that case.\<close>
  "sort_keyed xs = foldl (\<lambda>acc x. insert_keyed x acc) [] xs"

definition py_sort :: "('a \<Rightarrow> exn + pyfloat) \<Rightarrow> 'a list \<Rightarrow> exn + 'a list" where
  "py_sort key xs =
     (case keyed key xs of Inl e \<Rightarrow> Inl e | Inr ks \<Rightarrow> Inr (map snd (sort_keyed ks)))"

definition filter_bicycle_data ::
  "pydict list \<Rightarrow> (string \<times> pyval) list
     \<Rightarrow> log list \<times> (bicycle_data_error + pydict list)" where
  "filter_bicycle_data data filters =
     (if data = [] then ([WarnNoData], Inr [])
      else case filter_loop data filters of
             (l, Inl e) \<Rightarrow> (l, Inl (FailedToFilter e))
           | (l, Inr filtered_data) \<Rightarrow>
               (case py_sort score_key filtered_data of
                  Inl e \<Rightarrow> (l, Inl (FailedToFilter e))
                | Inr sorted_data \<Rightarrow>
                    (l @ [InfoFiltered (length data) (length sorted_data)], Inr sorted_data)))"

subsection \<open>Notions used to state the properties of the filter\<close>


definition fits_float :: "pyval \<Rightarrow> bool" where
  \<comment> \<open>Every value but an integer too large for a float.\<close>
  "fits_float v = (py_float v \<noteq> Inl OverflowError)"

definition accepted :: "pydict \<Rightarrow> (string \<times> pyval) list \<Rightarrow> bool" where
  \<comment> \<open>\<open>_item_matches_filters\<close> returns \<open>True\<close>.\<close>
  "accepted item filters = (snd (item_matches_filters item filters) = Inr True)"

definition entry_accepts :: "pydict \<Rightarrow> string \<times> pyval \<Rightarrow> bool" where
  \<comment> \<open>One entry of the filters, taken alone, lets the item pass.\<close>
  "entry_accepts item fv = accepted item [fv]"

definition score_le :: "pydict \<Rightarrow> pydict \<Rightarrow> bool" where
  "score_le a b = (\<exists>ka kb. score_key a = Inr ka \<and> score_key b = Inr kb \<and> fle ka kb)"


section \<open>Facts about the floating-point model\<close>

lemma bit_length_nonneg: "0 \<le> bit_length n"
  by (induction n rule: bit_length.induct) (simp add: bit_length.simps)

lemma bit_length_le: "n < 2 ^ m \<Longrightarrow> bit_length n \<le> int m"
proof (induction m arbitrary: n)
  case 0
  then show ?case by (simp add: bit_length.simps [of n])
next
  case (Suc m)
  show ?case
  proof (cases "n \<le> 0")
    case True
    then show ?thesis by (simp add: bit_length.simps [of n])
  next
    case False
    from Suc.prems have "n div 2 < 2 ^ m" by simp
    then have "bit_length (n div 2) \<le> int m" by (rule Suc.IH)
    with False show ?thesis by (simp add: bit_length.simps [of n])
  qed
qed

lemma bit_length_pos: "0 < n \<Longrightarrow> 1 \<le> bit_length n"
  using bit_length_nonneg [of "n div 2"] by (simp add: bit_length.simps [of n])

lemma bit_length_power2: "bit_length (2 ^ k) = int k + 1"
proof (induction k)
  case 0
  show ?case by (simp add: bit_length.simps [of 1] bit_length.simps [of 0])
next
  case (Suc k)
  then show ?case by (simp add: bit_length.simps [of "2 * 2 ^ k"])
qed

lemma round_half_even_of_int: "round_half_even (of_int k) = k"
  by (simp add: round_half_even_def)

lemma round_binary64_of_int:
  assumes "0 \<le> n" and "n < 2 ^ 53"
  shows "round_binary64 (of_int n) = of_int n"
proof (cases "n = 0")
  case True
  then show ?thesis by (simp add: round_binary64_def)
next
  case False
  with assms have pos: "0 < n" by simp
  define k where "k = bit_length n - bit_length 1"
  have b1: "bit_length 1 = 1" by (simp add: bit_length.simps [of 1] bit_length.simps [of 0])
  have "1 \<le> bit_length n" using pos by (rule bit_length_pos)
  moreover have "bit_length n \<le> 53" using bit_length_le [OF assms(2)] by simp
  ultimately have k: "0 \<le> k" "k \<le> 52" by (simp_all add: k_def b1)
  have il: "ilog2 (of_int n) = k \<or> ilog2 (of_int n) = k - 1"
    by (simp add: ilog2_def k_def Let_def)
  define e where "e = max (ilog2 (of_int n)) (- 1022)"
  from il k have e: "- 1 \<le> e" "e \<le> 52" by (auto simp: e_def)
  define m where "m = nat (52 - e)"
  from e have ulp: "pow2 (e - 52) = 1 / 2 ^ m"
    by (cases "e = 52") (simp_all add: pow2_def m_def)
  have "of_int n / pow2 (e - 52) = (of_int (n * 2 ^ m) :: rat)"
    by (simp add: ulp)
  then have "round_half_even (of_int n / pow2 (e - 52)) = n * 2 ^ m"
    by (simp only: round_half_even_of_int)
  then have "round_binary64 (of_int n) = of_int (n * 2 ^ m) * (1 / 2 ^ m)"
    using False by (simp add: round_binary64_def Let_def e_def [symmetric] ulp)
  then show ?thesis by simp
qed

lemma pow2_1024_gt: "(of_int n :: rat) < 2 ^ 53 \<Longrightarrow> \<not> pow2 1024 \<le> of_int n"
proof -
  assume "(of_int n :: rat) < 2 ^ 53"
  moreover have "(2::rat) ^ 53 \<le> 2 ^ 1024" by (rule power_increasing) simp_all
  ultimately show ?thesis by (simp add: pow2_def)
qed

lemma float_of_int_small:
  assumes "\<bar>n\<bar> < 2 ^ 53"
  shows "float_of_int n = Inr (Fin (of_int n))"
proof -
  have r: "round_binary64 (of_int \<bar>n\<bar>) = of_int \<bar>n\<bar>"
    using assms by (intro round_binary64_of_int) simp_all
  have "(of_int \<bar>n\<bar> :: rat) < 2 ^ 53"
    using assms by (metis of_int_less_iff of_int_numeral of_int_power)
  then have "\<not> pow2 1024 \<le> (of_int \<bar>n\<bar> :: rat)" by (rule pow2_1024_gt)
  then show ?thesis
    unfolding float_of_int_def Let_def r by (simp only: if_False) (simp add: abs_if)
qed

lemma float_of_rat_int:
  assumes "0 < n" and "n < 2 ^ 53"
  shows "float_of_rat neg (of_int n) = Fin (if neg then - of_int n else of_int n)"
proof -
  have r: "round_binary64 (of_int n) = of_int n"
    using assms by (intro round_binary64_of_int) simp_all
  have "(of_int n :: rat) < 2 ^ 53"
    using assms by (metis of_int_less_iff of_int_numeral of_int_power)
  then have "\<not> pow2 1024 \<le> (of_int n :: rat)" by (rule pow2_1024_gt)
  then show ?thesis
    unfolding float_of_rat_def Let_def r using assms by simp
qed

lemma bit_length_1: "bit_length 1 = 1"
  by (simp add: bit_length.simps [of 1] bit_length.simps [of 0])

lemma round_binary64_power2:
  assumes "52 \<le> k"
  shows "round_binary64 (2 ^ k) = 2 ^ k"
proof -
  obtain j where k: "k = 52 + j" using assms by (auto simp: le_iff_add)
  have q: "quotient_of ((2::rat) ^ k) = (2 ^ k, 1)"
    using quotient_of_rat_of_int [of "2 ^ k"] by simp
  have il: "ilog2 (2 ^ k) = int k"
    by (simp add: ilog2_def q bit_length_power2 bit_length_1 pow2_def)
  have ulp: "pow2 (int k - 52) = 2 ^ j"
    by (simp add: pow2_def k)
  have split: "(2::rat) ^ k = of_int (2 ^ 52) * 2 ^ j"
    unfolding k power_add by simp
  then have "(2::rat) ^ k / 2 ^ j = of_int (2 ^ 52)" by simp
  then have "round_half_even (2 ^ k / 2 ^ j) = 2 ^ 52"
    by (simp only: round_half_even_of_int)
  then have "round_binary64 (2 ^ k) = of_int (2 ^ 52) * 2 ^ j"
    by (simp add: round_binary64_def il ulp)
  with split show ?thesis by simp
qed

lemma float_of_int_overflow:
  assumes "1024 \<le> k"
  shows "float_of_int (2 ^ k) = Inl OverflowError"
proof -
  have r: "round_binary64 (of_int \<bar>2 ^ k\<bar>) = 2 ^ k"
    using assms by (simp add: round_binary64_power2)
  have "pow2 1024 = 2 ^ 1024" by (simp add: pow2_def)
  moreover have "(2::rat) ^ 1024 \<le> 2 ^ k"
    by (rule power_increasing) (use assms in simp_all)
  ultimately have "pow2 1024 \<le> 2 ^ k" by simp
  then show ?thesis
    unfolding float_of_int_def Let_def r by simp
qed


lemma float_of_string_not_overflow: "float_of_string s \<noteq> Inl OverflowError"
  by (simp add: float_of_string_def Let_def split: option.splits)


lemmas float_eval = float_of_string_def float_strip_def is_float_space_def is_digit_def
  parse_float_def split_sign_def py_lower_def lower_char_def parse_exponent_def
  int_of_digits_def digit_val_def pow10_def

lemma py_float_overflow: "py_float (PInt (2 ^ 1024)) = Inl OverflowError"
  using float_of_int_overflow [of 1024] by (simp del: power_numeral)


section \<open>Facts about the filter\<close>

lemma threshold_body_not_overflow:
  assumes "fits_float v" and "fits_float x"
  shows "threshold_body v x f \<noteq> Inl OverflowError"
  using assms float_of_string_not_overflow
  by (auto simp: threshold_body_def fits_float_def split: sum.splits)

lemma check_threshold_filter_fits:
  assumes "fits_float v" and "fits_float x"
  shows "snd (check_threshold_filter v x f) = Inr (threshold_body v x f = Inr True)"
proof (cases "threshold_body v x f")
  case (Inl e)
  with threshold_body_not_overflow [OF assms, of f] have "e = ValueError \<or> e = TypeError"
    by (cases e) auto
  with Inl show ?thesis by (auto simp: check_threshold_filter_def)
next
  case (Inr b)
  then show ?thesis by (simp add: check_threshold_filter_def)
qed

lemma entry_accepts_iff:
  "entry_accepts item (f, x) =
     (case map_of item f of
        None \<Rightarrow> False
      | Some v \<Rightarrow>
          if f \<in> MAX_THRESHOLD_FIELDS then threshold_body v x f = Inr True
          else py_lower (py_str v) = py_lower (py_str x))"
  by (auto simp: entry_accepts_def accepted_def check_threshold_filter_def
      split: option.splits sum.splits prod.splits)

lemma item_matches_filters_fits:
  assumes "\<forall>v \<in> snd ` set item. fits_float v" and "\<forall>x \<in> snd ` set filters. fits_float x"
  shows "snd (item_matches_filters item filters) = Inr (list_all (entry_accepts item) filters)"
  using assms(2)
proof (induction filters)
  case Nil
  show ?case by simp
next
  case (Cons fv filters)
  obtain f x where fv: "fv = (f, x)" by (cases fv)
  from Cons.prems fv have x: "fits_float x" by simp
  from Cons have IH: "snd (item_matches_filters item filters) = Inr (list_all (entry_accepts item) filters)"
    by simp
  show ?case
  proof (cases "map_of item f")
    case None
    then show ?thesis by (simp add: fv entry_accepts_iff)
  next
    case (Some v)
    then have "v \<in> snd ` set item" by (metis map_of_SomeD snd_conv image_eqI)
    with assms(1) have v: "fits_float v" by auto
    show ?thesis
    proof (cases "f \<in> MAX_THRESHOLD_FIELDS")
      case True
      obtain l r where c: "check_threshold_filter v x f = (l, r)" by (cases "check_threshold_filter v x f")
      with check_threshold_filter_fits [OF v x, of f]
      have r: "r = Inr (threshold_body v x f = Inr True)" by simp
      obtain l' r' where m: "item_matches_filters item filters = (l', r')"
        by (cases "item_matches_filters item filters")
      with IH have "r' = Inr (list_all (entry_accepts item) filters)" by simp
      with Some True c r m show ?thesis by (simp add: fv entry_accepts_iff)
    next
      case False
      with Some IH show ?thesis by (simp add: fv entry_accepts_iff)
    qed
  qed
qed

lemma accepted_fits:
  assumes "\<forall>v \<in> snd ` set item. fits_float v" and "\<forall>x \<in> snd ` set filters. fits_float x"
  shows "accepted item filters = list_all (entry_accepts item) filters"
  by (simp add: accepted_def item_matches_filters_fits [OF assms])


lemma filter_loop_fits:
  assumes "\<forall>item \<in> set data. \<forall>v \<in> snd ` set item. fits_float v"
    and "\<forall>x \<in> snd ` set filters. fits_float x"
  shows "\<exists>l. filter_loop data filters = (l, Inr (filter (\<lambda>item. accepted item filters) data))"
  using assms(1)
proof (induction data)
  case Nil
  show ?case by simp
next
  case (Cons item data)
  then obtain l where l: "filter_loop data filters = (l, Inr (filter (\<lambda>item. accepted item filters) data))"
    by auto
  from Cons.prems have "\<forall>v \<in> snd ` set item. fits_float v" by simp
  from item_matches_filters_fits [OF this assms(2)]
  obtain l0 where "item_matches_filters item filters = (l0, Inr (list_all (entry_accepts item) filters))"
    by (cases "item_matches_filters item filters") auto
  with l show ?case by (auto simp: accepted_def)
qed


lemma keyed_Inr:
  "keyed key xs = Inr ks \<Longrightarrow> map snd ks = xs \<and> (\<forall>p \<in> set ks. key (snd p) = Inr (fst p))"
  by (induction xs arbitrary: ks) (auto split: sum.splits)

lemma keyed_Inl: "keyed key xs = Inl e \<Longrightarrow> \<exists>x \<in> set xs. key x = Inl e"
  by (induction xs) (auto split: sum.splits)

lemma keyed_total:
  "\<forall>x \<in> set xs. \<exists>k. key x = Inr k \<Longrightarrow> \<exists>ks. keyed key xs = Inr ks"
  by (induction xs) auto

lemma sort_keyed_snoc: "sort_keyed (xs @ [x]) = insert_keyed x (sort_keyed xs)"
  by (simp add: sort_keyed_def)

lemma mset_insert_keyed: "mset (insert_keyed x ys) = add_mset x (mset ys)"
  by (induction ys) auto

lemma mset_sort_keyed: "mset (sort_keyed xs) = mset xs"
  by (induction xs rule: rev_induct) (simp_all add: sort_keyed_snoc mset_insert_keyed sort_keyed_def)

lemma set_insert_keyed: "set (insert_keyed x ys) = insert x (set ys)"
  by (induction ys) auto

lemma not_flt_fle: "a \<noteq> NaN \<Longrightarrow> b \<noteq> NaN \<Longrightarrow> \<not> flt a b \<Longrightarrow> fle b a"
  by (auto simp: flt_def fle_def)

lemma flt_fle: "flt a b \<Longrightarrow> fle a b"
  by (auto simp: flt_def fle_def)

lemma fle_trans: "fle a b \<Longrightarrow> fle b c \<Longrightarrow> fle a c"
  by (auto simp: fle_def)



lemma sorted_insert_keyed:
  assumes "fst x \<noteq> NaN" and "\<forall>y \<in> set ys. fst y \<noteq> NaN"
    and "sorted_wrt (\<lambda>a b. fle (fst a) (fst b)) ys"
  shows "sorted_wrt (\<lambda>a b. fle (fst a) (fst b)) (insert_keyed x ys)"
  using assms(2,3)
proof (induction ys)
  case Nil
  show ?case by simp
next
  case (Cons y ys)
  show ?case
  proof (cases "flt (fst x) (fst y)")
    case True
    then have "fle (fst x) (fst y)" by (rule flt_fle)
    with Cons.prems have "\<forall>z \<in> set ys. fle (fst x) (fst z)"
      by (auto intro: fle_trans)
    with True \<open>fle (fst x) (fst y)\<close> Cons.prems show ?thesis by simp
  next
    case False
    with assms(1) Cons.prems have "fle (fst y) (fst x)" by (simp add: not_flt_fle)
    with False Cons show ?thesis by (auto simp: set_insert_keyed)
  qed
qed

lemma sorted_sort_keyed:
  assumes "\<forall>y \<in> set xs. fst y \<noteq> NaN"
  shows "sorted_wrt (\<lambda>a b. fle (fst a) (fst b)) (sort_keyed xs)"
  using assms
proof (induction xs rule: rev_induct)
  case Nil
  show ?case by (simp add: sort_keyed_def)
next
  case (snoc x xs)
  have "set (sort_keyed xs) = set xs" by (metis mset_sort_keyed set_mset_mset)
  with snoc show ?case by (simp add: sort_keyed_snoc sorted_insert_keyed)
qed



lemma py_sort_mset: "py_sort key xs = Inr out \<Longrightarrow> mset out = mset xs"
proof -
  assume a: "py_sort key xs = Inr out"
  then obtain ks where ks: "keyed key xs = Inr ks" and out: "out = map snd (sort_keyed ks)"
    by (auto simp: py_sort_def split: sum.splits)
  have "mset out = image_mset snd (mset (sort_keyed ks))" by (simp add: out)
  also have "\<dots> = mset (map snd ks)" by (simp add: mset_sort_keyed)
  also have "\<dots> = mset xs" using keyed_Inr [OF ks] by simp
  finally show ?thesis .
qed

lemma py_sort_sorted:
  assumes "py_sort key xs = Inr out" and "\<forall>x \<in> set xs. key x \<noteq> Inr NaN"
  shows "sorted_wrt (\<lambda>a b. \<exists>ka kb. key a = Inr ka \<and> key b = Inr kb \<and> fle ka kb) out"
proof -
  from assms(1) obtain ks where ks: "keyed key xs = Inr ks" and out: "out = map snd (sort_keyed ks)"
    by (auto simp: py_sort_def split: sum.splits)
  note k = keyed_Inr [OF ks]
  have nn: "\<forall>p \<in> set ks. fst p \<noteq> NaN"
  proof
    fix p assume p: "p \<in> set ks"
    with k have "key (snd p) = Inr (fst p)" by simp
    moreover from p k have "snd p \<in> set xs" by (metis image_eqI set_map)
    ultimately show "fst p \<noteq> NaN" using assms(2) by auto
  qed
  have s: "sorted_wrt (\<lambda>a b. fle (fst a) (fst b)) (sort_keyed ks)"
    using nn by (rule sorted_sort_keyed)
  have set: "set (sort_keyed ks) = set ks" by (metis mset_sort_keyed set_mset_mset)
  have "sorted_wrt (\<lambda>p q. \<exists>ka kb. key (snd p) = Inr ka \<and> key (snd q) = Inr kb \<and> fle ka kb)
          (sort_keyed ks)"
    by (rule sorted_wrt_mono_rel [OF _ s]) (use k set in auto)
  then show ?thesis by (simp add: out sorted_wrt_map)
qed


lemma py_sort_Inr_iff: "(\<exists>out. py_sort key xs = Inr out) \<longleftrightarrow> (\<forall>x \<in> set xs. \<exists>k. key x = Inr k)"
proof
  assume "\<exists>out. py_sort key xs = Inr out"
  then obtain ks where ks: "keyed key xs = Inr ks"
    by (auto simp: py_sort_def split: sum.splits)
  show "\<forall>x \<in> set xs. \<exists>k. key x = Inr k"
  proof
    fix x assume "x \<in> set xs"
    with keyed_Inr [OF ks] obtain p where "p \<in> set ks" "snd p = x"
      by (metis (no_types, lifting) image_iff set_map)
    with keyed_Inr [OF ks] show "\<exists>k. key x = Inr k" by auto
  qed
next
  assume "\<forall>x \<in> set xs. \<exists>k. key x = Inr k"
  then obtain ks where "keyed key xs = Inr ks" using keyed_total by blast
  then show "\<exists>out. py_sort key xs = Inr out" by (simp add: py_sort_def)
qed


lemma filter_bicycle_data_fits:
  assumes "\<forall>item \<in> set data. \<forall>v \<in> snd ` set item. fits_float v"
    and "\<forall>x \<in> snd ` set filters. fits_float x"
  shows "snd (filter_bicycle_data data filters) =
     (case py_sort score_key (filter (\<lambda>item. accepted item filters) data) of
        Inl e \<Rightarrow> Inl (FailedToFilter e) | Inr out \<Rightarrow> Inr out)"
proof (cases "data = []")
  case True
  then show ?thesis by (simp add: filter_bicycle_data_def py_sort_def sort_keyed_def)
next
  case False
  from filter_loop_fits [OF assms] obtain l where
    "filter_loop data filters = (l, Inr (filter (\<lambda>item. accepted item filters) data))" ..
  with False show ?thesis by (simp add: filter_bicycle_data_def split: sum.splits)
qed

lemma accepted_Nil: "accepted item []"
  by (simp add: accepted_def)



lemma filter_order_irrelevant:
  assumes "set filters1 = set filters2"
    and "\<forall>item \<in> set data. \<forall>v \<in> snd ` set item. fits_float v"
    and "\<forall>x \<in> snd ` set filters1. fits_float x"
  shows "(\<forall>item \<in> set data.
            snd (item_matches_filters item filters1) = snd (item_matches_filters item filters2))
         \<and> snd (filter_bicycle_data data filters1) = snd (filter_bicycle_data data filters2)"
proof -
  from assms(1,3) have f2: "\<forall>x \<in> snd ` set filters2. fits_float x" by simp
  have m: "snd (item_matches_filters item filters1) = snd (item_matches_filters item filters2)"
    if "item \<in> set data" for item
  proof -
    from that assms(2) have i: "\<forall>v \<in> snd ` set item. fits_float v" by blast
    show ?thesis
      unfolding item_matches_filters_fits [OF i assms(3)] item_matches_filters_fits [OF i f2]
      by (simp add: list_all_iff assms(1))
  qed
  then have "filter (\<lambda>item. accepted item filters1) data = filter (\<lambda>item. accepted item filters2) data"
    by (intro filter_cong) (simp_all add: accepted_def)
  then have "snd (filter_bicycle_data data filters1) = snd (filter_bicycle_data data filters2)"
    unfolding filter_bicycle_data_fits [OF assms(2,3)] filter_bicycle_data_fits [OF assms(2) f2]
    by simp
  with m show ?thesis by blast
qed

section \<open>Facts about the extraction\<close>

subsection \<open>The search\<close>



subsection \<open>The substitution of the keys\<close>








subsection \<open>Digits\<close>



lemma is_digit_is_word: "is_digit c \<Longrightarrow> is_word c"
  by (simp add: is_digit_def is_word_def Let_def)









subsection \<open>Characters\<close>



lemma is_word_neq: "is_word c \<Longrightarrow> \<not> is_word d \<Longrightarrow> c \<noteq> d"
  by auto





subsection \<open>A transformation of the parts of a joined text\<close>


subsection \<open>The repair of a rendered array\<close>






subsection \<open>The substitution of the quotes\<close>

lemma sub_quotes_other: "c \<noteq> CHR 0x27 \<Longrightarrow> sub_quotes (c # s) = c # sub_quotes s"
  by simp










subsection \<open>Decoding the repaired text\<close>


lemma skip_ws_blank: "skip_ws (CHR '' '' # s) = skip_ws s"
  by (simp add: skip_ws_def is_json_ws_def)

























subsection \<open>The search in front of a rendered array\<close>






subsection \<open>The shape of the result\<close>





section \<open>The claims about the extraction\<close>




text \<open>
  Claim C3 says that the repair quotes exactly the tokens that serve as object keys and
  that the content of every single-quoted string is unchanged by it. The first
  substitution, \<open>re.sub(r"(\w+)(?=\s*:)", ...)\<close>, does not look at where a token stands: a
  run of word characters in front of a colon is quoted inside a string as well. In the
  array literal \<open>[{model: 'Trace: MIPS'}]\<close> the word \<open>Trace\<close> of the string is quoted, the
  content of the string is changed, the repaired text is not JSON and the extraction
  raises. (The comments of the code speak of unquoted object keys and of string values,
  as the claim does.)
\<close>

theorem repair_alters_string_with_colon:
  \<open>repair ''[{model: 'Trace: MIPS'}]'' = ''[{"model": ""Trace": MIPS"}]''
   \<and> fetch_bicycle_data (Some ''const bicycleDataRaw = [{model: 'Trace: MIPS'}];'')
       = Inl (FailedToParse JSONDecodeError)\<close>
  by code_simp



section \<open>The claims about the filter\<close>




text \<open>
  Claim C4, as stated: filtering with an empty FilterSpec returns all records, sorted by
  score. It does not when a score cannot be converted: the sort key raises, and the filter
  raises \<open>BicycleDataError\<close> instead of returning the records. Here the second record
  has the score \<open>None\<close> (a JSON \<open>null\<close>).
\<close>

theorem empty_spec_raises_on_null_score:
  "filter_bicycle_data [[(''score'', PInt 3)], [(''score'', PNone)]] []
     = ([], Inl (FailedToFilter TypeError))"
  by (simp add: filter_bicycle_data_def py_sort_def score_key_def float_of_int_small)

text \<open>
  Claim C4, amended: for every record sequence in which every score that is present
  converts to a float other than nan, filtering with an empty FilterSpec returns
  normally, the result holds exactly the records of the input (as a multiset), it is
  sorted ascending by the converted score, and a record without a score has the key
  positive infinity. (With a nan among the keys \<open>list.sort\<close> promises no order.)
\<close>

theorem empty_spec_returns_all_sorted:
  assumes "\<forall>r \<in> set data. \<exists>k. score_key r = Inr k \<and> k \<noteq> NaN"
  shows "\<exists>l out. filter_bicycle_data data [] = (l, Inr out) \<and> mset out = mset data
           \<and> sorted_wrt score_le out
           \<and> (\<forall>r. map_of r ''score'' = None \<longrightarrow> score_key r = Inr PosInf)"
proof -
  have fl: "filter_loop data [] = ([], Inr data)" by (induction data) simp_all
  from assms have "\<forall>r \<in> set data. \<exists>k. score_key r = Inr k" by blast
  then obtain out where out: "py_sort score_key data = Inr out"
    using py_sort_Inr_iff [of score_key data] by blast
  from assms have nn: "\<forall>r \<in> set data. score_key r \<noteq> Inr NaN" by auto
  have "sorted_wrt score_le out"
    using py_sort_sorted [OF out nn] by (simp add: score_le_def [abs_def])
  moreover have "mset out = mset data" using out by (rule py_sort_mset)
  moreover have "\<exists>l. filter_bicycle_data data [] = (l, Inr out)"
  proof (cases "data = []")
    case True
    with out show ?thesis by (simp add: filter_bicycle_data_def py_sort_def sort_keyed_def)
  next
    case False
    with fl out show ?thesis by (simp add: filter_bicycle_data_def)
  qed
  moreover have "\<forall>r. map_of r ''score'' = None \<longrightarrow> score_key r = Inr PosInf"
    by (simp add: score_key_def)
  ultimately show ?thesis by blast
qed

theorem empty_spec_returns_all_sorted_witness:
  "\<exists>l out. filter_bicycle_data
      [[(''model'', PStr ''a'')], [(''score'', PInt 20)], [(''score'', PStr ''5'')]] []
        = (l, Inr out)
     \<and> mset out = mset [[(''model'', PStr ''a'')], [(''score'', PInt 20)], [(''score'', PStr ''5'')]]
     \<and> sorted_wrt score_le out"
proof -
  have s: "float_of_string ''5'' = Inr (Fin 5)"
    using float_of_rat_int [of 5 False] by (simp add: float_eval)
  have h: "\<forall>r \<in> set [[(''model'', PStr ''a'')], [(''score'', PInt 20)], [(''score'', PStr ''5'')]].
      \<exists>k. score_key r = Inr k \<and> k \<noteq> NaN"
    by (simp add: score_key_def float_of_int_small s)
  from empty_spec_returns_all_sorted [OF h] show ?thesis by blast
qed







text \<open>
  Claim C9 says that the order of the entries of a FilterSpec does not affect the result.
  \<open>_check_threshold_filter\<close> catches \<open>ValueError\<close> and \<open>TypeError\<close> only, so the
  \<open>OverflowError\<close> that \<open>float\<close> raises on an integer of \<open>2\<^sup>1\<^sup>0\<^sup>2\<^sup>4\<close> or more leaves the
  loop over the entries. For the record \<open>{score: 2\<^sup>1\<^sup>0\<^sup>2\<^sup>4}\<close>, the entries \<open>brand\<close>,
  \<open>score\<close> reject the record at the missing brand and the filter returns the empty list;
  the same entries in the order \<open>score\<close>, \<open>brand\<close> make the filter raise. (Without such
  an integer the order is irrelevant: \<open>filter_order_irrelevant\<close>.)
\<close>

theorem filter_order_matters_on_overflow:
  "filter_bicycle_data [[(''score'', PInt (2 ^ 1024))]]
      [(''brand'', PStr ''Bell''), (''score'', PInt 5)] = ([InfoFiltered 1 0], Inr [])
   \<and> filter_bicycle_data [[(''score'', PInt (2 ^ 1024))]]
      [(''score'', PInt 5), (''brand'', PStr ''Bell'')] = ([], Inl (FailedToFilter OverflowError))"
  using py_float_overflow
  by (simp del: power_numeral py_float.simps add: filter_bicycle_data_def
      MAX_THRESHOLD_FIELDS_def check_threshold_filter_def threshold_body_def py_sort_def
      sort_keyed_def)


end
